theory Spec2Isabelle
  imports Main "HOL-Library.Sublist" "HOL-Library.Multiset"
begin

section \<open>Strings\<close>

text \<open>
  A JavaScript string is a sequence of UTF-16 code units. The model covers the strings whose
  code units lie in U+0000..U+00FF and represents each code unit by one \<^typ>\<open>char\<close>
  (\<open>of_char\<close> is the code unit). On that range \<open>toLowerCase\<close> maps A-Z and the
  capital letters U+00C0..U+00DE (without the multiplication sign U+00D7) 32 places up and
  leaves everything else alone; the result stays in the range. The characters matched by
  \<open>\s\<close> and removed by \<open>trim\<close> are TAB, LF, VT, FF, CR, SPACE and NBSP; \<open>\w\<close> is
  \<open>[A-Za-z0-9_]\<close>.
\<close>

definition is_space :: "char \<Rightarrow> bool" where
  "is_space c = (of_char c \<in> set [9, 10, 11, 12, 13, 32, 160 :: nat])"

definition is_lower_alnum :: "char \<Rightarrow> bool" where
  "is_lower_alnum c =
     (let n = (of_char c :: nat) in (97 \<le> n \<and> n \<le> 122) \<or> (48 \<le> n \<and> n \<le> 57))"

definition is_word_char :: "char \<Rightarrow> bool" where
  "is_word_char c =
     (let n = (of_char c :: nat)
      in (65 \<le> n \<and> n \<le> 90) \<or> (97 \<le> n \<and> n \<le> 122) \<or> (48 \<le> n \<and> n \<le> 57) \<or> n = 95)"

definition toLowerCase_char :: "char \<Rightarrow> char" where
  "toLowerCase_char c =
     (let n = (of_char c :: nat)
      in if (65 \<le> n \<and> n \<le> 90) \<or> (192 \<le> n \<and> n \<le> 222 \<and> n \<noteq> 215)
         then char_of (n + 32) else c)"

definition toLowerCase :: "string \<Rightarrow> string" where
  "toLowerCase s = map toLowerCase_char s"

definition trim :: "string \<Rightarrow> string" where
  "trim s = rev (dropWhile is_space (rev (dropWhile is_space s)))"

text \<open>
  \<open>s.split(/[sep]+/)\<close>: the pieces of \<open>s\<close> between the maximal runs of separator
  characters. \<open>cur\<close> is the piece being collected (the text between the end of the last
  match and the scanning position); a piece is emitted at every match and once more at the
  end of the string, so a separator at either end of the string gives an empty piece there,
  and the empty string splits into one empty piece.
\<close>

function split_from :: "(char \<Rightarrow> bool) \<Rightarrow> string \<Rightarrow> string \<Rightarrow> string list" where
  "split_from sep cur [] = [cur]"
| "split_from sep cur (c # cs) =
     (if sep c then cur # split_from sep [] (dropWhile sep cs)
      else split_from sep (cur @ [c]) cs)"
  by pat_completeness auto
termination
  by (relation "measure (\<lambda>(sep, cur, s). length s)")
     (auto simp: le_imp_less_Suc length_dropWhile_le)

definition split_re :: "(char \<Rightarrow> bool) \<Rightarrow> string \<Rightarrow> string list" where
  "split_re sep s = split_from sep [] s"

section \<open>Posts\<close>

text \<open>
  The post objects of \<open>app/components/search.tsx\<close> (type \<open>BlogPost\<close>) and of the listing.
  The summary is optional in the model, \<open>None\<close> standing for a post whose front matter has
  no summary: both views guard the field with \<open>||\<close>.
\<close>

record post_metadata =
  title :: string
  publishedAt :: string
  summary :: "string option"

record BlogPost =
  metadata :: post_metadata
  slug :: string

section \<open>The search view\<close>

record search_state =
  query :: string
  filteredPosts :: "BlogPost list"
  allPosts :: "BlogPost list"

definition initial_state :: search_state where
  "initial_state = \<lparr>query = [], filteredPosts = [], allPosts = []\<rparr>"

datatype fetch_error = NetworkFailure | InvalidJson

text \<open>
  The effect run on mount: \<open>fetch(...).then(res => res.json()).then(data => setAllPosts(data))\<close>.
  The outcome of the request is the argument. The promise chain has no rejection handler, so
  a failed request or an unreadable body changes nothing.
\<close>

definition fetchEffect :: "fetch_error + BlogPost list \<Rightarrow> search_state \<Rightarrow> search_state" where
  "fetchEffect outcome s = (case outcome of Inl e \<Rightarrow> s | Inr data \<Rightarrow> s\<lparr>allPosts := data\<rparr>)"

definition queryWords_of :: "string \<Rightarrow> string list" where
  "queryWords_of q = filter (\<lambda>word. length word > 0) (split_re is_space (toLowerCase q))"

definition titleWords_of :: "BlogPost \<Rightarrow> string list" where
  "titleWords_of post =
     split_re (\<lambda>c. \<not> is_lower_alnum c) (toLowerCase (title (metadata post)))"

text \<open>The callback given to \<open>allPosts.filter\<close>.\<close>

definition every_includes :: "string list \<Rightarrow> BlogPost \<Rightarrow> bool" where
  "every_includes queryWords post =
     list_all (\<lambda>queryWord. queryWord \<in> set (titleWords_of post)) queryWords"

text \<open>The effect run whenever \<open>query\<close> or \<open>allPosts\<close> changes.\<close>

definition filterEffect :: "search_state \<Rightarrow> search_state" where
  "filterEffect s =
     (if trim (query s) = [] then s\<lparr>filteredPosts := []\<rparr>
      else let queryWords = queryWords_of (query s)
           in s\<lparr>filteredPosts := filter (every_includes queryWords) (allPosts s)\<rparr>)"

text \<open>
  The events of the component: a keystroke replaces the query, the completion of the request
  runs the fetch effect; either is followed by the filter effect, whose dependencies changed.
\<close>

datatype search_event = Typed string | FetchSettled "fetch_error + BlogPost list"

fun search_step :: "search_state \<Rightarrow> search_event \<Rightarrow> search_state" where
  "search_step s (Typed q) = filterEffect (s\<lparr>query := q\<rparr>)"
| "search_step s (FetchSettled outcome) = filterEffect (fetchEffect outcome s)"

definition search_run :: "search_event list \<Rightarrow> search_state" where
  "search_run evs = foldl search_step (filterEffect initial_state) evs"

fun is_success :: "search_event \<Rightarrow> bool" where
  "is_success (FetchSettled (Inr data)) = True"
| "is_success ev = False"

subsection \<open>Cards\<close>

record card =
  card_href :: string
  card_title :: string
  card_summary :: string
  card_date :: string

text \<open>\<open>post.metadata.summary || 'No summary available.'\<close>: a missing or empty summary is falsy.\<close>

definition summary_or_default :: "string option \<Rightarrow> string" where
  "summary_or_default sm =
     (case sm of None \<Rightarrow> ''No summary available.''
      | Some t \<Rightarrow> if t = [] then ''No summary available.'' else t)"

text \<open>
  \<open>formatDate(date)\<close> of \<open>search.tsx\<close> as the view calls it, with \<open>includeRelative\<close> left
  at its default \<open>false\<close>: the relative text is computed and dropped, the result is the full
  date. \<open>toLocaleString\<close> stands for building the \<open>Date\<close> from the string and formatting
  it with \<open>toLocaleString('en-us', ...)\<close>; neither raises (an invalid date formats as
  "Invalid Date").
\<close>

definition formatDate :: "(string \<Rightarrow> string) \<Rightarrow> string \<Rightarrow> string" where
  "formatDate toLocaleString date =
     toLocaleString (if CHR ''T'' \<in> set date then date else date @ ''T00:00:00'')"

text \<open>
  One card of either view. \<open>fmt\<close> is the view's \<open>formatDate\<close>: the one above in the search
  view, the one imported from \<open>app/blog/utils\<close> in the listing.
\<close>

definition post_card :: "(string \<Rightarrow> string) \<Rightarrow> BlogPost \<Rightarrow> card" where
  "post_card fmt post =
     \<lparr>card_href = ''/blog/'' @ slug post,
      card_title = title (metadata post),
      card_summary = summary_or_default (summary (metadata post)),
      card_date = ''Published on: '' @ fmt (publishedAt (metadata post))\<rparr>"

record search_view =
  input_value :: string
  cards :: "card list"

definition search_render :: "(string \<Rightarrow> string) \<Rightarrow> search_state \<Rightarrow> search_view" where
  "search_render toLocaleString s =
     \<lparr>input_value = query s,
      cards = map (post_card (formatDate toLocaleString)) (filteredPosts s)\<rparr>"

section \<open>Whole-word matching, as the specification words it\<close>

text \<open>
  The words of a string split on maximal runs of separators, read off the string from its
  end: a separator closes a word only when it is the last one of its run.
\<close>

fun spec_words :: "(char \<Rightarrow> bool) \<Rightarrow> string \<Rightarrow> string list" where
  "spec_words sep [] = [[]]"
| "spec_words sep (c # cs) =
     (if sep c then (if cs \<noteq> [] \<and> sep (hd cs) then spec_words sep cs else [] # spec_words sep cs)
      else (case spec_words sep cs of w # ws \<Rightarrow> (c # w) # ws | [] \<Rightarrow> [[c]]))"

definition is_alphanumeric :: "char \<Rightarrow> bool" where
  "is_alphanumeric c =
     (let n = (of_char c :: nat)
      in (65 \<le> n \<and> n \<le> 90) \<or> (97 \<le> n \<and> n \<le> 122) \<or> (48 \<le> n \<and> n \<le> 57))"

definition spec_query_words :: "string \<Rightarrow> string list" where
  "spec_query_words q = filter (\<lambda>w. w \<noteq> []) (spec_words is_space (toLowerCase q))"

definition spec_title_words :: "string \<Rightarrow> string list" where
  "spec_title_words t = spec_words (\<lambda>c. \<not> is_alphanumeric c) (toLowerCase t)"

definition spec_matches :: "string \<Rightarrow> BlogPost \<Rightarrow> bool" where
  "spec_matches q post =
     list_all (\<lambda>w. w \<in> set (spec_title_words (title (metadata post)))) (spec_query_words q)"

text \<open>A post with a given title and no summary, for the examples.\<close>

definition titled :: "string \<Rightarrow> BlogPost" where
  "titled t = \<lparr>metadata = \<lparr>title = t, publishedAt = ''2025-03-04'', summary = None\<rparr>,
               slug = ''post''\<rparr>"

section \<open>The listing view\<close>

text \<open>
  \<open>new Date(a.metadata.publishedAt) > new Date(b.metadata.publishedAt)\<close> compares the time
  values of the two dates. \<open>newDate\<close> stands for the \<open>Date\<close> constructor followed by the
  conversion to a number: the time value in milliseconds, or \<open>None\<close> for the \<open>NaN\<close> of an
  invalid date. A comparison with \<open>NaN\<close> is false.
\<close>

definition date_gt :: "int option \<Rightarrow> int option \<Rightarrow> bool" where
  "date_gt x y = (case x of None \<Rightarrow> False | Some m \<Rightarrow> (case y of None \<Rightarrow> False | Some n \<Rightarrow> n < m))"

definition comparator :: "(string \<Rightarrow> int option) \<Rightarrow> BlogPost \<Rightarrow> BlogPost \<Rightarrow> int" where
  "comparator newDate a b =
     (if date_gt (newDate (publishedAt (metadata a))) (newDate (publishedAt (metadata b)))
      then - 1 else 1)"

text \<open>
  \<open>Array.prototype.sort\<close> belongs to the JavaScript engine, not to the repository, and the
  comparison function above is never a consistent one (it answers 1 for a post compared with
  itself), so that the language leaves the resulting order to the engine. The model takes
  the engine's sort as a parameter, of which it is known only that the sorted array holds
  the elements it held before.
\<close>

typedef 'a array_sort =
  "{f :: ('a \<Rightarrow> 'a \<Rightarrow> int) \<Rightarrow> 'a list \<Rightarrow> 'a list. \<forall>cmp xs. mset (f cmp xs) = mset xs}"
  morphisms sort_with Abs_array_sort
  by (rule exI [of _ "\<lambda>cmp xs. xs"]) simp

text \<open>\<open>allBlogs\<close> is what \<open>getBlogPosts()\<close> returned.\<close>

definition BlogPosts ::
  "BlogPost array_sort \<Rightarrow> (string \<Rightarrow> int option) \<Rightarrow> (string \<Rightarrow> string) \<Rightarrow> BlogPost list
     \<Rightarrow> card list" where
  "BlogPosts engine newDate fmt allBlogs =
     map (post_card fmt) (sort_with engine (comparator newDate) allBlogs)"

text \<open>A post with a given title and publication date, for the examples.\<close>

definition dated :: "string \<Rightarrow> string \<Rightarrow> BlogPost" where
  "dated t d = \<lparr>metadata = \<lparr>title = t, publishedAt = d, summary = Some ''text''\<rparr>, slug = t\<rparr>"

text \<open>A stand-in for the date parser in examples: three known days, everything else invalid.\<close>

definition toy_date :: "string \<Rightarrow> int option" where
  "toy_date d =
     (if d = ''2025-01-02'' then Some 1 else if d = ''2025-01-05'' then Some 4
      else if d = ''2025-03-04'' then Some 62 else None)"

section \<open>The render pipeline\<close>

subsection \<open>Heading slugs\<close>

text \<open>
  \<open>s.replace(/[P]+/g, rep)\<close> for \<open>n = 1\<close> and \<open>s.replace(/[P][P]+/g, rep)\<close> for \<open>n = 2\<close>:
  every maximal run of at least \<open>n\<close> characters of the class is replaced, scanning from the
  left; a character where no match starts is copied.
\<close>

function replace_runs :: "(char \<Rightarrow> bool) \<Rightarrow> nat \<Rightarrow> string \<Rightarrow> string \<Rightarrow> string" where
  "replace_runs P n rep [] = []"
| "replace_runs P n rep (c # cs) =
     (if P c \<and> n \<le> Suc (length (takeWhile P cs))
      then rep @ replace_runs P n rep (dropWhile P cs)
      else c # replace_runs P n rep cs)"
  by pat_completeness auto
termination
  by (relation "measure (\<lambda>(P, n, rep, s). length s)")
     (auto simp: le_imp_less_Suc length_dropWhile_le)

text \<open>\<open>s.replace(/c/g, rep)\<close> for a single character.\<close>

fun replace_each :: "char \<Rightarrow> string \<Rightarrow> string \<Rightarrow> string" where
  "replace_each x rep [] = []"
| "replace_each x rep (c # cs) =
     (if c = x then rep @ replace_each x rep cs else c # replace_each x rep cs)"

definition slugify :: "string \<Rightarrow> string" where
  "slugify str =
     replace_runs (\<lambda>c. c = CHR ''-'') 2 ''-''
       (replace_runs (\<lambda>c. \<not> (is_word_char c \<or> c = CHR ''-'')) 1 []
         (replace_each CHR ''&'' ''-and-''
           (replace_runs is_space 1 ''-'' (trim (toLowerCase str)))))"

text \<open>The slug as the specification words it, step by step.\<close>

fun squeeze :: "(char \<Rightarrow> bool) \<Rightarrow> string \<Rightarrow> string" where
  "squeeze P (a # b # cs) = (if P a \<and> P b then squeeze P (b # cs) else a # squeeze P (b # cs))"
| "squeeze P cs = cs"

definition spec_hyphenate :: "string \<Rightarrow> string" where
  "spec_hyphenate s = map (\<lambda>c. if is_space c then CHR ''-'' else c) (squeeze is_space s)"

definition spec_ampersands :: "string \<Rightarrow> string" where
  "spec_ampersands s = concat (map (\<lambda>c. if c = CHR ''&'' then ''-and-'' else [c]) s)"

definition spec_strip :: "string \<Rightarrow> string" where
  "spec_strip s = filter (\<lambda>c. is_word_char c \<or> c = CHR ''-'') s"

definition spec_collapse :: "string \<Rightarrow> string" where
  "spec_collapse s = squeeze (\<lambda>c. c = CHR ''-'') s"

definition spec_slug :: "string \<Rightarrow> string" where
  "spec_slug s =
     spec_collapse (spec_strip (spec_ampersands (spec_hyphenate (trim (toLowerCase s)))))"

subsection \<open>Links\<close>

text \<open>
  The props of a JSX element are a finite map from attribute names to values (the children
  under \<open>children\<close>). In \<open><a x="1" {...props} />\<close> the attributes are applied in the order
  written, so an entry of \<open>props\<close> replaces an attribute written before the spread.
  \<open>href.startsWith\<close> on a missing \<open>href\<close> raises a \<open>TypeError\<close>.
\<close>

type_synonym props = "string \<rightharpoonup> string"

datatype tag = NextLink | Anchor | CodeElem

datatype element = Element tag props

datatype js_error = TypeError

definition startsWith :: "string \<Rightarrow> string \<Rightarrow> bool" where
  "startsWith s p = (take (length p) s = p)"

definition CustomLink :: "props \<Rightarrow> js_error + element" where
  "CustomLink ps =
     (case ps ''href'' of
        None \<Rightarrow> Inl TypeError
      | Some href \<Rightarrow>
          if startsWith href ''/'' then Inr (Element NextLink ([''href'' \<mapsto> href] ++ ps))
          else if startsWith href ''#'' then Inr (Element Anchor ps)
          else Inr (Element Anchor
                 ([''target'' \<mapsto> ''_blank'', ''rel'' \<mapsto> ''noopener noreferrer''] ++ ps)))"

text \<open>What was rendered, read off the result.\<close>

fun rendered_tag :: "'e + element \<Rightarrow> tag option" where
  "rendered_tag (Inr (Element t attrs)) = Some t"
| "rendered_tag (Inl e) = None"

fun rendered_attr :: "'e + element \<Rightarrow> string \<Rightarrow> string option" where
  "rendered_attr (Inr (Element t attrs)) k = attrs k"
| "rendered_attr (Inl e) k = None"

subsection \<open>Code\<close>




section \<open>Properties of the search view\<close>

lemma dropWhile_all_iff: "(\<forall>x\<in>set (dropWhile P s). P x) \<longleftrightarrow> (\<forall>x\<in>set s. P x)"
proof
  assume a: "\<forall>x\<in>set (dropWhile P s). P x"
  have "dropWhile P s = []"
  proof (rule ccontr)
    assume "dropWhile P s \<noteq> []"
    then have "\<not> P (hd (dropWhile P s))" "hd (dropWhile P s) \<in> set (dropWhile P s)"
      by (simp_all add: hd_dropWhile)
    with a show False by blast
  qed
  then show "\<forall>x\<in>set s. P x" by simp
next
  assume "\<forall>x\<in>set s. P x"
  then show "\<forall>x\<in>set (dropWhile P s). P x" by (meson set_dropWhileD)
qed

lemma trim_Nil_iff: "trim s = [] \<longleftrightarrow> (\<forall>c\<in>set s. is_space c)"
  by (simp add: trim_def dropWhile_all_iff)

text \<open>
  C4. Whatever the posts are, a query that is empty or made of whitespace only leaves the
  search view with no filtered post: the view does not fall back to showing every post.
\<close>

theorem blank_query_no_results:
  "\<forall>c\<in>set (query s). is_space c \<Longrightarrow> filteredPosts (filterEffect s) = []"
  by (simp add: filterEffect_def trim_Nil_iff)

theorem blank_query_no_results_witness:
  "list_all is_space ''  ''
   \<and> filteredPosts (filterEffect \<lparr>query = ''  '', filteredPosts = [titled ''White House Rules''],
                      allPosts = [titled ''White House Rules'']\<rparr>) = []"
  using blank_query_no_results
    [of "\<lparr>query = ''  '', filteredPosts = [titled ''White House Rules''],
          allPosts = [titled ''White House Rules'']\<rparr>"]
  by (simp add: is_space_def)

lemma spec_words_not_Nil: "spec_words sep s \<noteq> []"
  by (induction s) (auto split: list.splits)

lemma spec_words_sep:
  "sep c \<Longrightarrow> spec_words sep (c # cs) = [] # spec_words sep (dropWhile sep cs)"
proof (induction cs arbitrary: c)
  case Nil
  then show ?case by simp
next
  case (Cons d ds)
  show ?case
  proof (cases "sep d")
    case True
    with Cons.prems Cons.IH [of d] show ?thesis by simp
  next
    case False
    with Cons.prems show ?thesis by simp
  qed
qed

lemma spec_words_nonsep:
  "\<not> sep c \<Longrightarrow>
     spec_words sep (c # cs) = (c # hd (spec_words sep cs)) # tl (spec_words sep cs)"
  using spec_words_not_Nil [of sep cs] by (cases "spec_words sep cs") simp_all

lemma split_from_spec_words:
  "split_from sep cur s = (cur @ hd (spec_words sep s)) # tl (spec_words sep s)"
proof (induction sep cur s rule: split_from.induct)
  case (1 sep cur)
  show ?case by simp
next
  case (2 sep cur c cs)
  show ?case
  proof (cases "sep c")
    case True
    have "split_from sep [] (dropWhile sep cs) = spec_words sep (dropWhile sep cs)"
      using "2.IH"(1) [OF True] spec_words_not_Nil [of sep "dropWhile sep cs"] by simp
    then show ?thesis
      using True by (simp add: spec_words_sep del: spec_words.simps)
  next
    case False
    then show ?thesis
      using "2.IH"(2) [OF False] by (simp add: spec_words_nonsep del: spec_words.simps)
  qed
qed

lemma split_re_spec_words: "split_re sep s = spec_words sep s"
  using split_from_spec_words [of sep "[]" s] spec_words_not_Nil [of sep s]
  by (simp add: split_re_def)

lemma spec_words_cong:
  "\<forall>c\<in>set s. sep1 c = sep2 c \<Longrightarrow> spec_words sep1 s = spec_words sep2 s"
proof (induction s)
  case Nil
  show ?case by simp
next
  case (Cons c cs)
  then have ih: "spec_words sep1 cs = spec_words sep2 cs" and c: "sep1 c = sep2 c"
    by simp_all
  have "cs \<noteq> [] \<Longrightarrow> sep1 (hd cs) = sep2 (hd cs)"
    using Cons.prems by (cases cs) simp_all
  with ih c show ?case by auto
qed

lemma toLowerCase_char_not_upper:
  "\<not> (65 \<le> (of_char (toLowerCase_char c) :: nat) \<and> (of_char (toLowerCase_char c) :: nat) \<le> 90)"
  by (auto simp: toLowerCase_char_def Let_def)

lemma alnum_lowered:
  "is_alphanumeric (toLowerCase_char c) = is_lower_alnum (toLowerCase_char c)"
  using toLowerCase_char_not_upper [of c]
  by (auto simp: is_alphanumeric_def is_lower_alnum_def Let_def)

lemma queryWords_of_spec: "queryWords_of q = spec_query_words q"
  by (simp add: queryWords_of_def spec_query_words_def split_re_spec_words)

lemma titleWords_of_spec: "titleWords_of post = spec_title_words (title (metadata post))"
  unfolding titleWords_of_def spec_title_words_def split_re_spec_words
  by (rule spec_words_cong) (auto simp: toLowerCase_def alnum_lowered)

lemma every_includes_spec: "every_includes (queryWords_of q) post = spec_matches q post"
  by (simp add: every_includes_def spec_matches_def queryWords_of_spec titleWords_of_spec)

lemma filterEffect_nonblank:
  "trim (query s) \<noteq> [] \<Longrightarrow>
     filteredPosts (filterEffect s) = filter (every_includes (queryWords_of (query s))) (allPosts s)"
  by (simp add: filterEffect_def Let_def)

lemma filterEffect_blank: "trim (query s) = [] \<Longrightarrow> filteredPosts (filterEffect s) = []"
  by (simp add: filterEffect_def)

lemma filterEffect_allPosts: "allPosts (filterEffect s) = allPosts s"
  by (simp add: filterEffect_def Let_def)

lemma filterEffect_query: "query (filterEffect s) = query s"
  by (simp add: filterEffect_def Let_def)

lemma white_house_words:
  "spec_title_words ''White House Rules'' = [''white'', ''house'', ''rules'']"
  by code_simp

lemma white_query: "spec_query_words ''white'' = [''white'']" "trim ''white'' \<noteq> []"
  by code_simp+

lemma whit_query: "spec_query_words ''whit'' = [''whit'']" "trim ''whit'' \<noteq> []"
  by code_simp+

lemma white_matches:
  "title (metadata post) = ''White House Rules'' \<Longrightarrow> spec_matches ''white'' post"
  by (simp add: spec_matches_def white_house_words white_query)

lemma whit_no_match:
  "title (metadata post) = ''White House Rules'' \<Longrightarrow> \<not> spec_matches ''whit'' post"
  by (simp add: spec_matches_def white_house_words whit_query)

text \<open>
  C1. The callback of the filter holds of a post exactly when every word of the query is
  one of the title's words. For a query that is not blank, a post is among the filtered
  posts exactly when it is one of the posts and every word of the query (lowercased, split on whitespace, empty words
  dropped) is, as a whole, one of the words got by lowercasing the title and splitting it on
  maximal runs of non-alphanumeric characters. So "white" finds a post titled
  "White House Rules" and "whit", a proper part of a title word, does not. For a blank query
  the equivalence fails: no post is shown although the query has no word that is missing
  from the title.
\<close>

theorem whole_word_match:
  "(every_includes (queryWords_of (query s)) post \<longleftrightarrow> spec_matches (query s) post)
   \<and> (trim (query s) \<noteq> [] \<longrightarrow>
      (post \<in> set (filteredPosts (filterEffect s))
         \<longleftrightarrow> post \<in> set (allPosts s) \<and> spec_matches (query s) post))
   \<and> (title (metadata post) = ''White House Rules'' \<longrightarrow>
      (post \<in> set (filteredPosts (filterEffect (s\<lparr>query := ''white''\<rparr>)))
         \<longleftrightarrow> post \<in> set (allPosts s)))
   \<and> (title (metadata post) = ''White House Rules'' \<longrightarrow>
      post \<notin> set (filteredPosts (filterEffect (s\<lparr>query := ''whit''\<rparr>))))"
proof (intro conjI impI)
  show "every_includes (queryWords_of (query s)) post \<longleftrightarrow> spec_matches (query s) post"
    by (rule every_includes_spec)
next
  assume "trim (query s) \<noteq> []"
  then show "post \<in> set (filteredPosts (filterEffect s))
         \<longleftrightarrow> post \<in> set (allPosts s) \<and> spec_matches (query s) post"
    by (simp add: filterEffect_nonblank every_includes_spec)
next
  assume t: "title (metadata post) = ''White House Rules''"
  have "trim (query (s\<lparr>query := ''white''\<rparr>)) \<noteq> []"
    by (simp add: white_query)
  then show "post \<in> set (filteredPosts (filterEffect (s\<lparr>query := ''white''\<rparr>)))
         \<longleftrightarrow> post \<in> set (allPosts s)"
    using white_matches [OF t] by (simp add: filterEffect_nonblank every_includes_spec)
next
  assume t: "title (metadata post) = ''White House Rules''"
  have "trim (query (s\<lparr>query := ''whit''\<rparr>)) \<noteq> []"
    by (simp add: whit_query)
  then show "post \<notin> set (filteredPosts (filterEffect (s\<lparr>query := ''whit''\<rparr>)))"
    using whit_no_match [OF t] by (simp add: filterEffect_nonblank every_includes_spec)
qed

text \<open>
  At the empty query the post is not shown, although each of the (no) query words is a title
  word.
\<close>

theorem whole_word_match_counterexample:
  "\<not> (titled ''White House Rules''
          \<in> set (filteredPosts (filterEffect
                \<lparr>query = [], filteredPosts = [], allPosts = [titled ''White House Rules'']\<rparr>))
        \<longleftrightarrow>
          titled ''White House Rules''
            \<in> set (allPosts
                \<lparr>query = [], filteredPosts = [], allPosts = [titled ''White House Rules'']\<rparr>)
          \<and> spec_matches [] (titled ''White House Rules''))"
  by (simp add: filterEffect_def trim_def spec_matches_def spec_query_words_def toLowerCase_def)

theorem whole_word_match_witness:
  "trim ''house rules'' \<noteq> []
   \<and> spec_matches ''house rules'' (titled ''White House Rules'')
   \<and> titled ''White House Rules''
       \<in> set (filteredPosts (filterEffect
             \<lparr>query = ''house rules'', filteredPosts = [],
              allPosts = [titled ''Blue Rules'', titled ''White House Rules'']\<rparr>))
   \<and> titled ''Blue Rules''
       \<notin> set (filteredPosts (filterEffect
             \<lparr>query = ''house rules'', filteredPosts = [],
              allPosts = [titled ''Blue Rules'', titled ''White House Rules'']\<rparr>))"
proof -
  have a: "trim ''house rules'' \<noteq> []"
    by code_simp
  have b: "spec_matches ''house rules'' (titled ''White House Rules'')"
    by code_simp
  have c: "\<not> spec_matches ''house rules'' (titled ''Blue Rules'')"
    by code_simp
  show ?thesis
    using a b c
      whole_word_match [of "\<lparr>query = ''house rules'', filteredPosts = [],
              allPosts = [titled ''Blue Rules'', titled ''White House Rules'']\<rparr>"
            "titled ''White House Rules''"]
      whole_word_match [of "\<lparr>query = ''house rules'', filteredPosts = [],
              allPosts = [titled ''Blue Rules'', titled ''White House Rules'']\<rparr>"
            "titled ''Blue Rules''"]
    by simp
qed

lemma subseq_filter_self: "subseq (filter P xs) xs"
  by (induction xs) auto

text \<open>
  C9. Recomputing the filtered posts leaves the posts and the query as they were and yields
  an order-preserving subsequence of the posts; for a query that is not blank it is exactly
  the posts that satisfy the callback of the filter, in their order. For a blank query that
  last part fails: every post satisfies the callback and none is kept.
\<close>

theorem filtered_is_subsequence:
  "subseq (filteredPosts (filterEffect s)) (allPosts s)
   \<and> allPosts (filterEffect s) = allPosts s
   \<and> query (filterEffect s) = query s
   \<and> (trim (query s) \<noteq> [] \<longrightarrow>
        filteredPosts (filterEffect s)
          = filter (every_includes (queryWords_of (query s))) (allPosts s))"
proof (intro conjI impI)
  show "subseq (filteredPosts (filterEffect s)) (allPosts s)"
    by (cases "trim (query s) = []")
       (simp_all add: filterEffect_blank filterEffect_nonblank subseq_filter_self)
qed (simp_all add: filterEffect_allPosts filterEffect_query filterEffect_nonblank)

text \<open>
  At a query of two spaces the filtered posts are not the posts that satisfy the callback.
\<close>

theorem filtered_is_subsequence_counterexample:
  "filteredPosts (filterEffect
      \<lparr>query = ''  '', filteredPosts = [], allPosts = [titled ''Search Notes'']\<rparr>)
   \<noteq> filter (every_includes (queryWords_of ''  '')) [titled ''Search Notes'']"
proof -
  have "queryWords_of ''  '' = []"
    by code_simp
  moreover have "trim ''  '' = []"
    by code_simp
  ultimately show ?thesis
    by (simp add: filterEffect_def every_includes_def)
qed

theorem filtered_is_subsequence_witness:
  "trim ''notes'' \<noteq> []
   \<and> filteredPosts (filterEffect
        \<lparr>query = ''notes'', filteredPosts = [],
         allPosts = [titled ''Search Notes'', titled ''White House Rules'', titled ''Notes'']\<rparr>)
     = [titled ''Search Notes'', titled ''Notes'']"
proof -
  have a: "trim ''notes'' \<noteq> []"
    by code_simp
  have b: "filter (every_includes (queryWords_of ''notes''))
             [titled ''Search Notes'', titled ''White House Rules'', titled ''Notes'']
           = [titled ''Search Notes'', titled ''Notes'']"
    by code_simp
  show ?thesis
    using a b
      filtered_is_subsequence [of "\<lparr>query = ''notes'', filteredPosts = [],
         allPosts = [titled ''Search Notes'', titled ''White House Rules'', titled ''Notes'']\<rparr>"]
    by simp
qed

lemma search_step_invariant:
  "allPosts s = [] \<Longrightarrow> \<not> is_success ev \<Longrightarrow>
     allPosts (search_step s ev) = [] \<and> filteredPosts (search_step s ev) = []"
proof (cases ev)
  case (Typed q)
  assume "allPosts s = []"
  with Typed show ?thesis
    by (simp add: filterEffect_def Let_def)
next
  case (FetchSettled outcome)
  assume "allPosts s = []" "\<not> is_success ev"
  with FetchSettled show ?thesis
    by (cases outcome) (simp_all add: fetchEffect_def filterEffect_def Let_def)
qed

lemma search_steps_invariant:
  "allPosts s = [] \<Longrightarrow> filteredPosts s = [] \<Longrightarrow> list_all (\<lambda>ev. \<not> is_success ev) evs \<Longrightarrow>
     allPosts (foldl search_step s evs) = [] \<and> filteredPosts (foldl search_step s evs) = []"
proof (induction evs arbitrary: s)
  case Nil
  then show ?case by simp
next
  case (Cons ev evs)
  then have "allPosts (search_step s ev) = []" "filteredPosts (search_step s ev) = []"
    using search_step_invariant [of s ev] by simp_all
  with Cons show ?case by simp
qed

text \<open>
  C8. A failed request leaves the state as it was. As long as no request has succeeded,
  whatever is typed, the posts stay the empty list, no post is filtered and the view shows
  the input and no card: nothing of the failure reaches the state or the view.
\<close>

theorem fetch_failure_silent:
  assumes "list_all (\<lambda>ev. \<not> is_success ev) evs"
  shows "fetchEffect (Inl e) s = s
    \<and> allPosts (search_run evs) = []
    \<and> filteredPosts (search_run evs) = []
    \<and> search_render toLocaleString (search_run evs)
        = \<lparr>input_value = query (search_run evs), cards = []\<rparr>"
proof -
  have "allPosts (filterEffect initial_state) = []" "filteredPosts (filterEffect initial_state) = []"
    by (simp_all add: filterEffect_def initial_state_def trim_def)
  then have "allPosts (search_run evs) = [] \<and> filteredPosts (search_run evs) = []"
    unfolding search_run_def using assms by (rule search_steps_invariant)
  then show ?thesis
    by (simp add: fetchEffect_def search_render_def)
qed

theorem fetch_failure_silent_witness:
  "\<not> is_success (Typed ''py'') \<and> \<not> is_success (FetchSettled (Inl NetworkFailure))
   \<and> \<not> is_success (Typed ''pytorch'')
   \<and> filteredPosts
        (search_run [Typed ''py'', FetchSettled (Inl NetworkFailure), Typed ''pytorch'']) = []
   \<and> cards (search_render (\<lambda>d. d)
        (search_run [Typed ''py'', FetchSettled (Inl NetworkFailure), Typed ''pytorch''])) = []"
  using fetch_failure_silent
    [of "[Typed ''py'', FetchSettled (Inl NetworkFailure), Typed ''pytorch'']"
        NetworkFailure initial_state "\<lambda>d. d"]
  by simp

section \<open>Properties of the listing view\<close>

text \<open>
  C5. The comparison function of the listing answers "first argument first" exactly when the
  first post's date is strictly after the second's; for every other pair, the dates being
  equal or the first one earlier, it gives the one answer "second argument first"; it never
  answers that the two are equal.
\<close>

theorem comparator_only_checks_after:
  "(comparator newDate a b < 0
      \<longleftrightarrow> date_gt (newDate (publishedAt (metadata a))) (newDate (publishedAt (metadata b))))
   \<and> (\<not> date_gt (newDate (publishedAt (metadata a))) (newDate (publishedAt (metadata b)))
      \<longrightarrow> comparator newDate a b = 1)
   \<and> comparator newDate a b \<noteq> 0
   \<and> (date_gt (Some m) (Some n) \<longleftrightarrow> n < m)"
  by (simp add: comparator_def date_gt_def)

theorem comparator_only_checks_after_witness:
  "comparator toy_date (dated ''three'' ''2025-03-04'') (dated ''one'' ''2025-01-02'') = - 1
   \<and> \<not> date_gt (toy_date ''2025-01-02'') (toy_date ''2025-03-04'')
   \<and> comparator toy_date (dated ''one'' ''2025-01-02'') (dated ''three'' ''2025-03-04'') = 1
   \<and> \<not> date_gt (toy_date ''2025-01-02'') (toy_date ''2025-01-02'')
   \<and> comparator toy_date (dated ''one'' ''2025-01-02'') (dated ''uno'' ''2025-01-02'') = 1
   \<and> comparator toy_date (dated ''uno'' ''2025-01-02'') (dated ''one'' ''2025-01-02'') = 1"
proof -
  have a: "\<not> date_gt (toy_date ''2025-01-02'') (toy_date ''2025-03-04'')"
    by code_simp
  have b: "\<not> date_gt (toy_date ''2025-01-02'') (toy_date ''2025-01-02'')"
    by code_simp
  have c: "comparator toy_date (dated ''three'' ''2025-03-04'') (dated ''one'' ''2025-01-02'') = - 1"
    by code_simp
  show ?thesis
    using a b c
      comparator_only_checks_after [of toy_date "dated ''one'' ''2025-01-02''"
        "dated ''three'' ''2025-03-04''"]
      comparator_only_checks_after [of toy_date "dated ''one'' ''2025-01-02''"
        "dated ''uno'' ''2025-01-02''"]
      comparator_only_checks_after [of toy_date "dated ''uno'' ''2025-01-02''"
        "dated ''one'' ''2025-01-02''"]
    by (simp add: dated_def)
qed

lemma sort_with_set: "set (sort_with engine cmp xs) = set xs"
proof -
  have "mset (sort_with engine cmp xs) = mset xs"
    using sort_with [of engine] by simp
  then show ?thesis by (rule mset_eq_setD)
qed

text \<open>
  C7. For a post whose summary is missing or empty, the card of the listing and the card of
  the search view both show the text "No summary available." where the summary would stand;
  the card is produced all the same: the post's card is among the cards of the listing when
  the post is in the collection, and among the cards of the search view when the post is one
  of the filtered posts.
\<close>

theorem missing_summary_placeholder:
  assumes "summary (metadata post) = None \<or> summary (metadata post) = Some []"
  shows "card_summary (post_card fmt post) = ''No summary available.''
    \<and> (post \<in> set allBlogs \<longrightarrow>
         post_card fmt post \<in> set (BlogPosts engine newDate fmt allBlogs))
    \<and> (post \<in> set (filteredPosts s) \<longrightarrow>
         post_card (formatDate toLocaleString) post \<in> set (cards (search_render toLocaleString s)))"
  using assms
  by (auto simp: post_card_def summary_or_default_def BlogPosts_def search_render_def
        sort_with_set)

theorem missing_summary_placeholder_witness:
  "summary (metadata (titled ''White House Rules'')) = None
   \<and> card_summary (post_card (\<lambda>d. d) (titled ''White House Rules'')) = ''No summary available.''
   \<and> post_card (\<lambda>d. d) (titled ''White House Rules'')
       \<in> set (BlogPosts (Abs_array_sort (\<lambda>cmp xs. xs)) toy_date (\<lambda>d. d)
               [titled ''White House Rules''])
   \<and> post_card (formatDate (\<lambda>d. d)) (titled ''White House Rules'')
       \<in> set (cards (search_render (\<lambda>d. d)
               \<lparr>query = ''white'', filteredPosts = [titled ''White House Rules''],
                allPosts = [titled ''White House Rules'']\<rparr>))"
proof -
  have n: "summary (metadata (titled ''White House Rules'')) = None"
    by (simp add: titled_def)
  show ?thesis
    using n missing_summary_placeholder [of "titled ''White House Rules''" "\<lambda>d. d"
        "[titled ''White House Rules'']" "Abs_array_sort (\<lambda>cmp xs. xs)" toy_date
        "\<lparr>query = ''white'', filteredPosts = [titled ''White House Rules''],
                allPosts = [titled ''White House Rules'']\<rparr>" "\<lambda>d. d"]
    by simp
qed

section \<open>Properties of the render pipeline\<close>

lemma squeeze_keep [simp]: "\<not> P c \<Longrightarrow> squeeze P (c # cs) = c # squeeze P cs"
  by (cases cs) simp_all

lemma squeeze_run_map:
  "P c \<Longrightarrow> map (\<lambda>c. if P c then r else c) (squeeze P (c # cs))
           = r # map (\<lambda>c. if P c then r else c) (squeeze P (dropWhile P cs))"
proof (induction cs arbitrary: c)
  case Nil
  then show ?case by simp
next
  case (Cons d ds)
  show ?case
  proof (cases "P d")
    case True
    with Cons.prems Cons.IH [of d] show ?thesis by simp
  next
    case False
    with Cons.prems show ?thesis by simp
  qed
qed

lemma replace_runs_hyphenate_aux:
  "rep = [r] \<Longrightarrow> n \<le> 1 \<Longrightarrow>
     replace_runs P n rep s = map (\<lambda>c. if P c then r else c) (squeeze P s)"
proof (induction P n rep s rule: replace_runs.induct)
  case (1 P n rep)
  show ?case by simp
next
  case (2 P n rep c cs)
  show ?case
  proof (cases "P c")
    case True
    then have "replace_runs P n rep (c # cs) = r # replace_runs P n rep (dropWhile P cs)"
      using "2.prems" by simp
    also have "replace_runs P n rep (dropWhile P cs)
               = map (\<lambda>c. if P c then r else c) (squeeze P (dropWhile P cs))"
      using "2.IH"(1) "2.prems" True by simp
    finally show ?thesis
      using True by (simp only: squeeze_run_map)
  next
    case False
    then show ?thesis
      using "2.IH"(2) "2.prems" by simp
  qed
qed

lemma squeeze_same_run:
  "squeeze (\<lambda>c. c = r) (r # cs) = r # squeeze (\<lambda>c. c = r) (dropWhile (\<lambda>c. c = r) cs)"
proof (induction cs)
  case Nil
  show ?case by simp
next
  case (Cons d ds)
  then show ?case by (cases "d = r") simp_all
qed

lemma takeWhile_Nil_dropWhile: "takeWhile P cs = [] \<Longrightarrow> dropWhile P cs = cs"
  by (cases cs) (auto split: if_splits)

lemma replace_runs_collapse_aux:
  "P = (\<lambda>c. c = r) \<Longrightarrow> rep = [r] \<Longrightarrow> n = 2 \<Longrightarrow> replace_runs P n rep s = squeeze P s"
proof (induction P n rep s rule: replace_runs.induct)
  case (1 P n rep)
  show ?case by simp
next
  case (2 P n rep c cs)
  show ?case
  proof (cases "c = r")
    case False
    then show ?thesis
      using "2.IH"(2) "2.prems" by simp
  next
    case True
    show ?thesis
    proof (cases "takeWhile P cs = []")
      case False
      then have run: "P c \<and> n \<le> Suc (length (takeWhile P cs))"
        using True "2.prems" by (cases "takeWhile P cs") simp_all
      then have "replace_runs P n rep (c # cs) = r # squeeze P (dropWhile P cs)"
        using "2.IH"(1) "2.prems" by simp
      then show ?thesis
        using True "2.prems"(1) squeeze_same_run [of r cs] by simp
    next
      case e: True
      then have "\<not> (P c \<and> n \<le> Suc (length (takeWhile P cs)))"
        using "2.prems" by simp
      then have "replace_runs P n rep (c # cs) = r # squeeze P cs"
        using "2.IH"(2) "2.prems" True by simp
      then show ?thesis
        using True "2.prems"(1) squeeze_same_run [of r cs] takeWhile_Nil_dropWhile [OF e]
        by simp
    qed
  qed
qed

lemma filter_dropWhile_not: "filter (\<lambda>c. \<not> P c) (dropWhile P cs) = filter (\<lambda>c. \<not> P c) cs"
  by (induction cs) simp_all

lemma replace_runs_strip_aux:
  "rep = [] \<Longrightarrow> n \<le> 1 \<Longrightarrow> replace_runs P n rep s = filter (\<lambda>c. \<not> P c) s"
proof (induction P n rep s rule: replace_runs.induct)
  case (1 P n rep)
  show ?case by simp
next
  case (2 P n rep c cs)
  show ?case
  proof (cases "P c")
    case True
    then have "replace_runs P n rep (c # cs) = filter (\<lambda>c. \<not> P c) (dropWhile P cs)"
      using "2.IH"(1) "2.prems" by simp
    then show ?thesis
      using True by (simp add: filter_dropWhile_not)
  next
    case False
    then show ?thesis
      using "2.IH"(2) "2.prems" by simp
  qed
qed

lemma replace_each_concat:
  "replace_each x rep s = concat (map (\<lambda>c. if c = x then rep else [c]) s)"
  by (induction s) simp_all

lemma slugify_steps:
  "replace_runs is_space 1 ''-'' s = spec_hyphenate s"
  "replace_each CHR ''&'' ''-and-'' s = spec_ampersands s"
  "replace_runs (\<lambda>c. \<not> (is_word_char c \<or> c = CHR ''-'')) 1 [] s = spec_strip s"
  "replace_runs (\<lambda>c. c = CHR ''-'') 2 ''-'' s = spec_collapse s"
proof -
  show "replace_runs is_space 1 ''-'' s = spec_hyphenate s"
    unfolding spec_hyphenate_def by (rule replace_runs_hyphenate_aux) simp_all
  show "replace_each CHR ''&'' ''-and-'' s = spec_ampersands s"
    by (simp add: replace_each_concat spec_ampersands_def)
  have "replace_runs (\<lambda>c. \<not> (is_word_char c \<or> c = CHR ''-'')) 1 [] s
        = filter (\<lambda>c. \<not> \<not> (is_word_char c \<or> c = CHR ''-'')) s"
    by (rule replace_runs_strip_aux) simp_all
  then show "replace_runs (\<lambda>c. \<not> (is_word_char c \<or> c = CHR ''-'')) 1 [] s = spec_strip s"
    by (simp add: spec_strip_def)
  show "replace_runs (\<lambda>c. c = CHR ''-'') 2 ''-'' s = spec_collapse s"
    unfolding spec_collapse_def by (rule replace_runs_collapse_aux) simp_all
qed

text \<open>
  C3. For every string, the slug of a heading is what the steps of the specification give,
  taken in their order: lowercase and trim, put one hyphen for each run of whitespace, put
  "-and-" for each ampersand, delete every character that is neither a word character nor a
  hyphen, and keep one hyphen of each run of hyphens. The heading
  "Understanding PyTorch: Graphs & Autograd" gets the slug
  "understanding-pytorch-graphs-and-autograd".
\<close>

theorem slugify_follows_spec:
  "slugify str = spec_slug str
   \<and> slugify ''Understanding PyTorch: Graphs & Autograd''
       = ''understanding-pytorch-graphs-and-autograd''"
proof
  show "slugify str = spec_slug str"
    by (simp only: slugify_def spec_slug_def slugify_steps)
  show "slugify ''Understanding PyTorch: Graphs & Autograd''
       = ''understanding-pytorch-graphs-and-autograd''"
    by code_simp
qed

lemma map_add_present: "ps k = Some v \<Longrightarrow> [k \<mapsto> v] ++ ps = ps"
  by (auto simp: map_add_def fun_eq_iff split: option.splits)

text \<open>
  C6. A link with an \<open>href\<close> that begins with a slash becomes a client-side navigation
  link with the props it was given; one whose \<open>href\<close> begins with a hash sign becomes a
  plain anchor with exactly the props it was given; every other link becomes an anchor that
  keeps its \<open>href\<close> and whose \<open>target\<close> and \<open>rel\<close> are "_blank" and
  "noopener noreferrer" unless the link's own props set them, in which case the link's own
  values stand.
\<close>

theorem custom_link_cases:
  assumes "ps ''href'' = Some href"
  shows "(startsWith href ''/'' \<longrightarrow> CustomLink ps = Inr (Element NextLink ps))
    \<and> (\<not> startsWith href ''/'' \<and> startsWith href ''#''
         \<longrightarrow> CustomLink ps = Inr (Element Anchor ps))
    \<and> (\<not> startsWith href ''/'' \<and> \<not> startsWith href ''#'' \<longrightarrow>
         rendered_tag (CustomLink ps) = Some Anchor
         \<and> rendered_attr (CustomLink ps) ''href'' = Some href
         \<and> rendered_attr (CustomLink ps) ''target''
             = Some (case ps ''target'' of None \<Rightarrow> ''_blank'' | Some t \<Rightarrow> t)
         \<and> rendered_attr (CustomLink ps) ''rel''
             = Some (case ps ''rel'' of None \<Rightarrow> ''noopener noreferrer'' | Some r \<Rightarrow> r)
         \<and> (ps ''target'' = None \<and> ps ''rel'' = None \<longrightarrow>
              rendered_attr (CustomLink ps) ''target'' = Some ''_blank''
              \<and> rendered_attr (CustomLink ps) ''rel'' = Some ''noopener noreferrer''))"
proof (intro conjI impI)
  assume "startsWith href ''/''"
  then show "CustomLink ps = Inr (Element NextLink ps)"
    using assms by (simp add: CustomLink_def map_add_present)
next
  assume "\<not> startsWith href ''/'' \<and> startsWith href ''#''"
  then show "CustomLink ps = Inr (Element Anchor ps)"
    using assms by (simp add: CustomLink_def)
next
  assume other: "\<not> startsWith href ''/'' \<and> \<not> startsWith href ''#''"
  then have c: "CustomLink ps = Inr (Element Anchor
                 ([''target'' \<mapsto> ''_blank'', ''rel'' \<mapsto> ''noopener noreferrer''] ++ ps))"
    using assms by (simp add: CustomLink_def)
  show "rendered_tag (CustomLink ps) = Some Anchor"
    by (simp add: c)
  show "rendered_attr (CustomLink ps) ''href'' = Some href"
    using assms by (simp add: c map_add_def)
  show t: "rendered_attr (CustomLink ps) ''target''
             = Some (case ps ''target'' of None \<Rightarrow> ''_blank'' | Some t \<Rightarrow> t)"
    by (simp add: c map_add_def split: option.splits)
  show r: "rendered_attr (CustomLink ps) ''rel''
             = Some (case ps ''rel'' of None \<Rightarrow> ''noopener noreferrer'' | Some r \<Rightarrow> r)"
    by (simp add: c map_add_def split: option.splits)
  assume "ps ''target'' = None \<and> ps ''rel'' = None"
  then show "rendered_attr (CustomLink ps) ''target'' = Some ''_blank''"
    and "rendered_attr (CustomLink ps) ''rel'' = Some ''noopener noreferrer''"
    using t r by simp_all
qed

text \<open>
  A link to another site that carries a \<open>target\<close> of its own is not rendered with
  \<open>target="_blank"\<close>.
\<close>

theorem custom_link_cases_counterexample:
  "\<not> startsWith ''https://pytorch.org'' ''/''
   \<and> \<not> startsWith ''https://pytorch.org'' ''#''
   \<and> rendered_attr
        (CustomLink [''href'' \<mapsto> ''https://pytorch.org'', ''target'' \<mapsto> ''_self''])
        ''target'' \<noteq> Some ''_blank''"
  by (simp add: CustomLink_def startsWith_def map_add_def)

theorem custom_link_cases_witness:
  "CustomLink [''href'' \<mapsto> ''/blog''] = Inr (Element NextLink [''href'' \<mapsto> ''/blog''])
   \<and> CustomLink [''href'' \<mapsto> ''#data''] = Inr (Element Anchor [''href'' \<mapsto> ''#data''])
   \<and> rendered_tag (CustomLink [''href'' \<mapsto> ''https://pytorch.org'']) = Some Anchor
   \<and> rendered_attr (CustomLink [''href'' \<mapsto> ''https://pytorch.org'']) ''target''
       = Some ''_blank''
   \<and> rendered_attr (CustomLink [''href'' \<mapsto> ''https://pytorch.org'']) ''rel''
       = Some ''noopener noreferrer''"
proof -
  have a: "startsWith ''/blog'' ''/''"
    and b: "\<not> startsWith ''#data'' ''/'' \<and> startsWith ''#data'' ''#''"
    and c: "\<not> startsWith ''https://pytorch.org'' ''/''
            \<and> \<not> startsWith ''https://pytorch.org'' ''#''"
    by (simp_all add: startsWith_def)
  show ?thesis
    using a b c
      custom_link_cases [of "[''href'' \<mapsto> ''/blog'']" "''/blog''"]
      custom_link_cases [of "[''href'' \<mapsto> ''#data'']" "''#data''"]
      custom_link_cases [of "[''href'' \<mapsto> ''https://pytorch.org'']" "''https://pytorch.org''"]
    by simp
qed



end
